theory Spec2Isabelle
  imports Complex_Main "HOL-Library.Word"
begin

unbundle bit_operations_syntax

section \<open>The Wii balance board driver (py3-wiiboard.py)\<close>

text \<open>
  The driver is one Python class hierarchy, \<open>Wiiboard\<close> \<open>\<rightarrow>\<close> \<open>WiiboardSampling\<close> \<open>\<rightarrow>\<close>
  \<open>WiiboardPrint\<close>; the program instantiates the most derived class, so the model is of a
  \<open>WiiboardPrint\<close> object: its fields are a record, every method takes the object and
  returns it updated, and what a method hands to a collaborator (the control socket, the
  csv writer, the logger, \<open>time.sleep\<close>) is appended to a field of the record so that it
  can be observed.

  Python integers are \<open>int\<close>, bytes are \<open>8 word\<close>. Python floats are modelled as
  \<open>real\<close>: comparison, subtraction, multiplication and division are exact, so rounding
  is not part of the model. A \<open>raise\<close> is a value: \<open>Inl\<close> of the error.
\<close>

subsection \<open>Bytes, slices and errors\<close>

type_synonym byte = "8 word"
type_synonym bytes = "byte list"

datatype error = IndexError | ZeroDivisionError | UnboundLocalError

text \<open>\<open>d[i:j]\<close> for \<open>0 \<le> i \<le> j\<close>: never raises, shorter when \<open>d\<close> is.\<close>

definition slice :: "'a list \<Rightarrow> nat \<Rightarrow> nat \<Rightarrow> 'a list" where
  "slice d i j = take (j - i) (drop i d)"

text \<open>\<open>xs[i]\<close> for \<open>0 \<le> i\<close>: IndexError out of range.\<close>

definition getitem :: "'a list \<Rightarrow> nat \<Rightarrow> error + 'a" where
  "getitem xs i = (if i < length xs then Inr (xs ! i) else Inl IndexError)"

text \<open>
  \<open>b2i = lambda b: b if isinstance(b, int) else int.from_bytes(b, "big")\<close>. On a byte
  string it is the big-endian value (0 for the empty string); on one byte taken by
  indexing, which Python gives as an int, it is that int (\<open>uint\<close>).
\<close>

definition b2i :: "bytes \<Rightarrow> int" where
  "b2i b = foldl (\<lambda>acc x. 256 * acc + uint x) 0 b"

subsection \<open>Module constants\<close>

definition Minutes :: nat where "Minutes = 20"
definition Seconds :: nat where "Seconds = 0"
definition N_SAMPLES :: nat where "N_SAMPLES = 100 * (Seconds + 60 * Minutes)"
definition N_LOOP :: nat where "N_LOOP = 0"
definition T_SLEEP :: nat where "T_SLEEP = 2"
definition BATTERY_MAX :: real where "BATTERY_MAX = 200"
definition TOP_RIGHT :: nat where "TOP_RIGHT = 0"
definition BOTTOM_RIGHT :: nat where "BOTTOM_RIGHT = 1"
definition TOP_LEFT :: nat where "TOP_LEFT = 2"
definition BOTTOM_LEFT :: nat where "BOTTOM_LEFT = 3"

definition CONTINUOUS_REPORTING :: bytes where "CONTINUOUS_REPORTING = [0x04]"
definition COMMAND_REPORTING :: bytes where "COMMAND_REPORTING = [0x12]"
definition COMMAND_LIGHT :: bytes where "COMMAND_LIGHT = [0x11]"
definition COMMAND_READ_REGISTER :: bytes where "COMMAND_READ_REGISTER = [0x17]"
definition COMMAND_REGISTER :: bytes where "COMMAND_REGISTER = [0x16]"
definition COMMAND_REQUEST_STATUS :: bytes where "COMMAND_REQUEST_STATUS = [0x15]"
definition INPUT_STATUS :: bytes where "INPUT_STATUS = [0x20]"
definition INPUT_READ_DATA :: bytes where "INPUT_READ_DATA = [0x21]"
definition EXTENSION_8BYTES :: bytes where "EXTENSION_8BYTES = [0x32]"
definition BUTTON_DOWN_MASK :: int where "BUTTON_DOWN_MASK = 0x08"
definition LED1_MASK :: byte where "LED1_MASK = 0x10"

text \<open>The float \<open>1e4\<close> that fills the calibration table before calibration.\<close>

definition sentinel :: real where "sentinel = 10000"

subsection \<open>The object\<close>

text \<open>What the logger and \<open>print\<close> are told, one entry per callback that ran.\<close>

datatype event = ButtonPressed | ButtonReleased | BoardCalibrated | StatusReport | SessionCompleted

record mass_dict =
  top_right :: real
  bottom_right :: real
  top_left :: real
  bottom_left :: real

text \<open>
  The fields of the object, then what it has done to its collaborators:
  \<open>control_sent\<close> the byte strings given to \<open>controlsocket.send\<close>, in order;
  \<open>control_open\<close>, \<open>receive_open\<close> whether each socket is connected and not closed;
  \<open>csv_rows\<close> the rows given to \<open>csv_writer.writerow\<close>, \<open>csv_open\<close> whether
  \<open>csv_file\<close> is open; \<open>events\<close> the callbacks that ran; \<open>slept\<close> the seconds spent
  in \<open>time.sleep\<close>. \<open>maxlen\<close> is the bound of the deque \<open>samples\<close>.
  \<open>length_local\<close> is the local variable \<open>length\<close> of \<open>loop\<close>: it lives as long
  as the call of \<open>loop\<close> and is \<open>None\<close> until its first assignment. The local
  \<open>cal\<close> is bound by the same block, to the same function every time.
\<close>

record wiiboard =
  calibration :: "real list list"
  calibration_requested :: bool
  light_state :: bool
  button_down :: bool
  battery :: real
  running :: bool
  samples :: "mass_dict list"
  maxlen :: nat
  nloop :: nat
  control_sent :: "bytes list"
  control_open :: bool
  receive_open :: bool
  csv_rows :: "real list list"
  csv_open :: bool
  events :: "event list"
  slept :: nat
  length_local :: "int option"

subsection \<open>Outbound commands\<close>

text \<open>\<open>send(*data)\<close>: \<open>controlsocket.send(b'\x52' + b''.join(data))\<close>.\<close>

definition send :: "wiiboard \<Rightarrow> bytes list \<Rightarrow> wiiboard" where
  "send s data = s\<lparr>control_sent := control_sent s @ [0x52 # concat data]\<rparr>"

definition reporting :: "wiiboard \<Rightarrow> wiiboard" where
  "reporting s = send s [COMMAND_REPORTING, CONTINUOUS_REPORTING, EXTENSION_8BYTES]"

definition light :: "wiiboard \<Rightarrow> bool \<Rightarrow> wiiboard" where
  "light s on_off = send s [COMMAND_LIGHT, if on_off then [0x10] else [0x00]]"

definition status :: "wiiboard \<Rightarrow> wiiboard" where
  "status s = send s [COMMAND_REQUEST_STATUS, [0x00]]"

text \<open>
  \<open>connect\<close>, lines 100 to 116. Line 114 is \<open>self.status\<close>, without parentheses: the
  expression evaluates to the bound method and calls nothing, so it is no step here.
\<close>

definition connect :: "wiiboard \<Rightarrow> wiiboard" where
  "connect s =
    (let s1 = s\<lparr>control_open := True, receive_open := True\<rparr>;
         s2 = send s1 [COMMAND_READ_REGISTER, [0x04, 0xA4, 0x00, 0x24, 0x00, 0x18]];
         s3 = s2\<lparr>calibration_requested := True\<rparr>;
         s4 = send s3 [COMMAND_REGISTER, [0x04, 0xA4, 0x00, 0x40, 0x00]]
     in light s4 False)"

text \<open>
  \<open>close\<close>: the two \<open>if self.receivesocket\<close> / \<open>if self.controlsocket\<close> tests are on
  socket objects, which are always true.
\<close>

definition close :: "wiiboard \<Rightarrow> wiiboard" where
  "close s = s\<lparr>csv_open := False, running := False, receive_open := False, control_open := False\<rparr>"

subsection \<open>Weight computation\<close>

definition truediv :: "real \<Rightarrow> real \<Rightarrow> error + real" where
  "truediv a b = (if b = 0 then Inl ZeroDivisionError else Inr (a / b))"

text \<open>\<open>self.calibration[k][pos]\<close>\<close>

definition cal_at :: "real list list \<Rightarrow> nat \<Rightarrow> nat \<Rightarrow> error + real" where
  "cal_at c k pos = (case getitem c k of Inl e \<Rightarrow> Inl e | Inr row \<Rightarrow> getitem row pos)"

text \<open>
  The two interpolating \<open>return\<close> expressions of \<open>calc_mass\<close>, lines 150 to 152 and
  154 to 156, on the reading and the two calibration values each uses.
\<close>

definition middle_branch :: "real \<Rightarrow> real \<Rightarrow> real \<Rightarrow> error + real" where
  "middle_branch raw c0 c1 =
    (case truediv (raw - c0) (c1 - c0) of Inl e \<Rightarrow> Inl e | Inr q \<Rightarrow> Inr (17 * q))"

definition upper_branch :: "real \<Rightarrow> real \<Rightarrow> real \<Rightarrow> error + real" where
  "upper_branch raw c1 c2 =
    (case truediv (raw - c1) (c2 - c1) of Inl e \<Rightarrow> Inl e | Inr q \<Rightarrow> Inr (17 + 17 * q))"

definition calc_mass :: "real list list \<Rightarrow> int \<Rightarrow> nat \<Rightarrow> error + real" where
  "calc_mass c raw pos =
    (case cal_at c 0 pos of Inl e \<Rightarrow> Inl e | Inr c0 \<Rightarrow>
      if of_int raw < c0 then Inr 0
      else
        (case cal_at c 1 pos of Inl e \<Rightarrow> Inl e | Inr c1 \<Rightarrow>
          if of_int raw < c1 then middle_branch (of_int raw) c0 c1
          else
            (case cal_at c 2 pos of Inl e \<Rightarrow> Inl e | Inr c2 \<Rightarrow>
               upper_branch (of_int raw) c1 c2)))"

subsection \<open>Button edges\<close>

definition on_pressed :: "wiiboard \<Rightarrow> wiiboard" where
  "on_pressed s = s\<lparr>events := events s @ [ButtonPressed]\<rparr>"

definition on_released :: "wiiboard \<Rightarrow> wiiboard" where
  "on_released s = s\<lparr>events := events s @ [ButtonReleased]\<rparr>"

definition check_button :: "wiiboard \<Rightarrow> int \<Rightarrow> wiiboard" where
  "check_button s state =
    (if state = BUTTON_DOWN_MASK then
       (if \<not> button_down s then on_pressed (s\<lparr>button_down := True\<rparr>) else s)
     else if button_down s then on_released (s\<lparr>button_down := False\<rparr>)
     else s)"

subsection \<open>Samples and epochs\<close>

text \<open>
  \<open>get_mass\<close>: the four corners in the order of the dict literal, then one csv row. It
  changes nothing before it raises. The csv writer is the one the main program sets.
\<close>

definition get_mass :: "wiiboard \<Rightarrow> bytes \<Rightarrow> error + (mass_dict \<times> wiiboard)" where
  "get_mass s data =
    (case calc_mass (calibration s) (b2i (slice data 0 2)) TOP_RIGHT of Inl e \<Rightarrow> Inl e | Inr TR \<Rightarrow>
     case calc_mass (calibration s) (b2i (slice data 2 4)) BOTTOM_RIGHT of Inl e \<Rightarrow> Inl e | Inr BR \<Rightarrow>
     case calc_mass (calibration s) (b2i (slice data 4 6)) TOP_LEFT of Inl e \<Rightarrow> Inl e | Inr TL \<Rightarrow>
     case calc_mass (calibration s) (b2i (slice data 6 8)) BOTTOM_LEFT of Inl e \<Rightarrow> Inl e | Inr BL \<Rightarrow>
       Inr (\<lparr>top_right = TR, bottom_right = BR, top_left = TL, bottom_left = BL\<rparr>,
            s\<lparr>csv_rows := csv_rows s @ [[TR, BR, TL, BL]]\<rparr>))"

text \<open>\<open>collections.deque.append\<close> on a deque bounded by \<open>m\<close>: what does not fit falls off the left.\<close>

definition deque_append :: "nat \<Rightarrow> 'a list \<Rightarrow> 'a \<Rightarrow> 'a list" where
  "deque_append m xs x = (let ys = xs @ [x] in drop (length ys - m) ys)"

definition sleep :: "wiiboard \<Rightarrow> nat \<Rightarrow> wiiboard" where
  "sleep s t = s\<lparr>slept := slept s + t\<rparr>"

text \<open>
  \<open>WiiboardPrint.on_sample\<close>, lines 324 to 337. The module constants \<open>N_SAMPLES\<close> and
  \<open>N_LOOP\<close> it reads are the parameters \<open>N\<close> and \<open>L\<close>; the program is
  \<open>on_sample N_SAMPLES N_LOOP\<close>. The list of totals it computes is never used.
\<close>

definition on_sample :: "nat \<Rightarrow> nat \<Rightarrow> wiiboard \<Rightarrow> wiiboard" where
  "on_sample N L s =
    (if length (samples s) = N then
       (let s1 = s\<lparr>events := events s @ [SessionCompleted]\<rparr>;
            s2 = s1\<lparr>samples := []\<rparr>;
            s3 = status s2;
            s4 = s3\<lparr>nloop := nloop s3 + 1\<rparr>
        in if nloop s4 > L then close s4
           else sleep (light s4 False) T_SLEEP)
     else s)"

text \<open>\<open>WiiboardSampling.on_mass\<close>\<close>

definition on_mass :: "nat \<Rightarrow> nat \<Rightarrow> wiiboard \<Rightarrow> mass_dict \<Rightarrow> wiiboard" where
  "on_mass N L s mass = on_sample N L (s\<lparr>samples := deque_append (maxlen s) (samples s) mass\<rparr>)"

subsection \<open>The receive loop\<close>

definition on_status :: "wiiboard \<Rightarrow> wiiboard" where
  "on_status s = light ((reporting s)\<lparr>events := events s @ [StatusReport]\<rparr>) True"

definition on_calibrated :: "wiiboard \<Rightarrow> wiiboard" where
  "on_calibrated s = light (s\<lparr>events := events s @ [BoardCalibrated]\<rparr>) True"

text \<open>\<open>cal = lambda d: [b2i(d[j:j + 2]) for j in [0, 2, 4, 6]]\<close>\<close>

definition cal :: "bytes \<Rightarrow> real list" where
  "cal d = map (\<lambda>j. of_int (b2i (slice d j (j + 2)))) [0, 2, 4, 6]"

text \<open>
  The guarded block of lines 211 to 215: with the flag set it assigns \<open>length\<close> and
  rebinds \<open>data\<close> to the payload; with the flag clear it does nothing. It gives the
  object and the value of \<open>data\<close> after it.
\<close>

definition read_fragment :: "wiiboard \<Rightarrow> bytes \<Rightarrow> (error \<times> wiiboard) + (wiiboard \<times> bytes)" where
  "read_fragment s data =
    (if calibration_requested s then
       (case getitem data 4 of
          Inl e \<Rightarrow> Inl (e, s)
        | Inr d4 \<Rightarrow>
            (let len = uint d4 div 16 + 1
             in Inr (s\<lparr>length_local := Some len\<rparr>, slice data 7 (7 + nat len))))
     else Inr (s, data))"

text \<open>
  Lines 219 to 224, which stand after the guarded block and not inside it: they read
  \<open>length\<close>, \<open>data\<close> and \<open>cal\<close> whatever the flag was.
\<close>

definition store_fragment :: "wiiboard \<Rightarrow> bytes \<Rightarrow> (error \<times> wiiboard) + wiiboard" where
  "store_fragment s data =
    (case length_local s of
       None \<Rightarrow> Inl (UnboundLocalError, s)
     | Some len \<Rightarrow>
         if len = 16 then
           Inr (s\<lparr>calibration := [cal (slice data 0 8), cal (slice data 8 16), replicate 4 sentinel]\<rparr>)
         else if len < 16 then
           (if 2 < length (calibration s) then
              Inr (on_calibrated (s\<lparr>calibration := (calibration s)[2 := cal (slice data 0 8)],
                                     calibration_requested := False\<rparr>))
            else Inl (IndexError, s))
         else Inr s)"

text \<open>
  One iteration of the \<open>while\<close> of \<open>loop\<close> on the packet \<open>recv\<close> returned. A raise gives
  the error with the object as it was at the raise.
\<close>

definition loop_body :: "nat \<Rightarrow> nat \<Rightarrow> wiiboard \<Rightarrow> bytes \<Rightarrow> (error \<times> wiiboard) + wiiboard" where
  "loop_body N L s data =
    (if length data < 2 then Inr s
     else
       (let input_type = data ! 1 in
        if [input_type] = INPUT_STATUS then
          (let s1 = s\<lparr>battery := of_int (b2i (slice data 7 9)) / BATTERY_MAX\<rparr>
           in case getitem data 4 of
                Inl e \<Rightarrow> Inl (e, s1)
              | Inr d4 \<Rightarrow> Inr (on_status (s1\<lparr>light_state := (d4 AND LED1_MASK = LED1_MASK)\<rparr>)))
        else if [input_type] = INPUT_READ_DATA then
          (case read_fragment s data of
             Inl x \<Rightarrow> Inl x
           | Inr (s1, data1) \<Rightarrow> store_fragment s1 data1)
        else if [input_type] = EXTENSION_8BYTES then
          (let s1 = check_button s (b2i (slice data 2 4))
           in case get_mass s1 (slice data 4 12) of
                Inl e \<Rightarrow> Inl (e, s1)
              | Inr (mass, s2) \<Rightarrow> Inr (on_mass N L s2 mass))
        else Inr s))"

text \<open>
  \<open>loop\<close> on the packets that arrive, in order. The guard \<open>self.running and
  self.receivesocket\<close> is \<open>running\<close>: the socket object is always true. With no packet
  left the loop waits in \<open>recv\<close>; the result is then the object as it waits.
\<close>

fun loop :: "nat \<Rightarrow> nat \<Rightarrow> wiiboard \<Rightarrow> bytes list \<Rightarrow> (error \<times> wiiboard) + wiiboard" where
  "loop N L s [] = Inr s"
| "loop N L s (data # rest) =
    (if running s then
       (case loop_body N L s data of
          Inl x \<Rightarrow> Inl x
        | Inr s' \<Rightarrow> loop N L s' rest)
     else Inr s)"

subsection \<open>Construction\<close>

text \<open>
  The object after the three \<open>__init__\<close>s, before \<open>connect\<close>: the table is
  \<open>[[1e4] * 4] * 3\<close>, the deque is empty and bounded by \<open>nsamples\<close>.
\<close>

definition init :: "nat \<Rightarrow> wiiboard" where
  "init nsamples =
    \<lparr>calibration = replicate 3 (replicate 4 sentinel),
     calibration_requested = False,
     light_state = False,
     button_down = False,
     battery = 0,
     running = True,
     samples = [],
     maxlen = nsamples,
     nloop = 0,
     control_sent = [],
     control_open = False,
     receive_open = False,
     csv_rows = [],
     csv_open = True,
     events = [],
     slept = 0,
     length_local = None\<rparr>"

subsection \<open>Notions the properties are stated with\<close>

text \<open>The table has three rows of four values.\<close>

definition table_3x4 :: "real list list \<Rightarrow> bool" where
  "table_3x4 c = (length c = 3 \<and> list_all (\<lambda>row. length row = 4) c)"

text \<open>
  The object an iteration or a run of the loop leaves, whether it ended by a raise or
  not.
\<close>

definition outcome_state :: "(error \<times> wiiboard) + wiiboard \<Rightarrow> wiiboard" where
  "outcome_state r = (case r of Inl (e, s) \<Rightarrow> s | Inr s \<Rightarrow> s)"

text \<open>
  An extension report as the loop dispatches it, and a status report long enough for the
  handler to read its byte 4.
\<close>

definition is_extension :: "bytes \<Rightarrow> bool" where
  "is_extension data = (2 \<le> length data \<and> [data ! 1] = EXTENSION_8BYTES)"

definition is_status :: "bytes \<Rightarrow> bool" where
  "is_status data = (5 \<le> length data \<and> [data ! 1] = INPUT_STATUS)"

text \<open>
  A table of three rows of four values on which the divisor of the upper branch,
  \<open>cal[2] - cal[1]\<close>, is not zero at any corner.
\<close>

definition divisors_nonzero :: "real list list \<Rightarrow> bool" where
  "divisors_nonzero c =
    (table_3x4 c \<and> list_all (\<lambda>pos. c ! 2 ! pos \<noteq> c ! 1 ! pos) [0, 1, 2, 3])"

text \<open>
  Packets for the worked examples: the two fragments the board answers the calibration
  read with (16 bytes for the 0 kg and 17 kg rows, then 8 bytes for the 34 kg row), and
  a status report whose bytes 7 and 8 are \<open>01 00\<close>.
\<close>

definition example_fragment_1 :: bytes where
  "example_fragment_1 =
    [0xa1, 0x21, 0, 0, 0xf0, 0, 0x24,
     0, 100, 0, 100, 0, 100, 0, 100, 0, 200, 0, 200, 0, 200, 0, 200]"

definition example_fragment_2 :: bytes where
  "example_fragment_2 = [0xa1, 0x21, 0, 0, 0x70, 0, 0x34, 1, 44, 1, 44, 1, 44, 1, 44]"

definition example_status :: bytes where
  "example_status = [0xa1, 0x20, 0, 0, 0x10, 0, 0, 0x01, 0x00]"

definition example_table :: "real list list" where
  "example_table = [[100, 100, 100, 100], [200, 200, 200, 200], [300, 300, 300, 300]]"

definition example_extension :: bytes where
  "example_extension = [0xa1, 0x32, 0, 0, 0, 150, 0, 150, 0, 150, 0, 150]"

text \<open>
  The object after \<open>connect\<close> and the two example fragments, with a deque bounded by
  \<open>n\<close>.
\<close>

definition calibrated_example :: "nat \<Rightarrow> wiiboard" where
  "calibrated_example n =
     outcome_state (loop n 0 (connect (init n)) [example_fragment_1, example_fragment_2])"

section \<open>Properties\<close>

subsection \<open>Bytes and table lookups\<close>

lemma uint_byte_le: "uint (x :: byte) \<le> 255"
  using uint_bounded [of x] by simp

lemma b2i_Nil: "b2i [] = 0"
  by (simp add: b2i_def)

lemma b2i_one: "b2i [a] = uint a"
  by (simp add: b2i_def)

lemma b2i_two: "b2i [a, b] = 256 * uint a + uint b"
  by (simp add: b2i_def)

lemma b2i_short_bounds:
  assumes "length bs \<le> 2"
  shows "0 \<le> b2i bs \<and> b2i bs \<le> 65535"
proof (cases bs)
  case Nil
  then show ?thesis by (simp add: b2i_Nil)
next
  case (Cons a as)
  note outer = Cons
  show ?thesis
  proof (cases as)
    case Nil
    with outer show ?thesis using uint_byte_le [of a] by (simp add: b2i_one)
  next
    case (Cons b rest)
    with outer assms have "bs = [a, b]" by simp
    then show ?thesis
      using uint_byte_le [of a] uint_byte_le [of b] by (simp add: b2i_two)
  qed
qed

lemma length_slice_le: "length (slice d i j) \<le> j - i"
  by (simp add: slice_def)

lemma slice_two: "i + 2 \<le> length d \<Longrightarrow> slice d i (i + 2) = [d ! i, d ! (i + 1)]"
  by (simp add: slice_def take_Suc_conv_app_nth list_eq_iff_nth_eq nth_append
      less_Suc_eq numeral_2_eq_2)

lemma cal_at_3x4:
  "table_3x4 c \<Longrightarrow> pos < 4 \<Longrightarrow> k < 3 \<Longrightarrow> cal_at c k pos = Inr (c ! k ! pos)"
  by (auto simp: table_3x4_def cal_at_def getitem_def list_all_length)

lemma table_3x4_example: "table_3x4 example_table"
  by (simp add: table_3x4_def example_table_def)

lemma calc_mass_value:
  assumes "table_3x4 c" and "pos < 4"
  shows "calc_mass c raw pos =
    (if of_int raw < c ! 0 ! pos then Inr 0
     else if of_int raw < c ! 1 ! pos
       then Inr (17 * (of_int raw - c ! 0 ! pos) / (c ! 1 ! pos - c ! 0 ! pos))
     else if c ! 2 ! pos = c ! 1 ! pos then Inl ZeroDivisionError
     else Inr (17 + 17 * (of_int raw - c ! 1 ! pos) / (c ! 2 ! pos - c ! 1 ! pos)))"
  using assms
  by (simp add: calc_mass_def cal_at_3x4 middle_branch_def upper_branch_def truediv_def)

subsection \<open>What each step leaves unchanged\<close>

lemma loop_invariant:
  assumes step: "\<And>s data. P s \<Longrightarrow> P (outcome_state (loop_body N L s data))"
    and start: "P s"
  shows "P (outcome_state (loop N L s pkts))"
  using start
proof (induction pkts arbitrary: s)
  case Nil
  then show ?case by (simp add: outcome_state_def)
next
  case (Cons data rest)
  show ?case
  proof (cases "running s")
    case False
    with Cons.prems show ?thesis by (simp add: outcome_state_def)
  next
    case True
    have body: "P (outcome_state (loop_body N L s data))"
      using step Cons.prems by blast
    show ?thesis
    proof (cases "loop_body N L s data")
      case (Inl x)
      with body True show ?thesis by (simp add: outcome_state_def)
    next
      case (Inr s')
      with body have "P s'" by (simp add: outcome_state_def)
      then have "P (outcome_state (loop N L s' rest))" by (rule Cons.IH)
      with Inr True show ?thesis by simp
    qed
  qed
qed

lemma length_cal: "length (cal d) = 4"
  by (simp add: cal_def)

lemma get_mass_state:
  "get_mass s d = Inr (m, s2) \<Longrightarrow>
     \<exists>row. s2 = s\<lparr>csv_rows := csv_rows s @ [row]\<rparr>"
  by (auto simp: get_mass_def split: sum.splits)

lemma check_button_fields:
  "calibration (check_button s m) = calibration s"
  "calibration_requested (check_button s m) = calibration_requested s"
  "samples (check_button s m) = samples s"
  "maxlen (check_button s m) = maxlen s"
  "nloop (check_button s m) = nloop s"
  "running (check_button s m) = running s"
  "control_open (check_button s m) = control_open s"
  "receive_open (check_button s m) = receive_open s"
  by (simp_all add: check_button_def on_pressed_def on_released_def)

lemma on_mass_fields:
  "calibration (on_mass N L s m) = calibration s"
  "calibration_requested (on_mass N L s m) = calibration_requested s"
  "maxlen (on_mass N L s m) = maxlen s"
  by (simp_all add: on_mass_def on_sample_def status_def light_def send_def close_def sleep_def Let_def)

lemma on_status_fields:
  "calibration (on_status s) = calibration s"
  "calibration_requested (on_status s) = calibration_requested s"
  "samples (on_status s) = samples s"
  "maxlen (on_status s) = maxlen s"
  by (simp_all add: on_status_def reporting_def light_def send_def)

lemma on_calibrated_fields:
  "calibration (on_calibrated s) = calibration s"
  "calibration_requested (on_calibrated s) = calibration_requested s"
  "samples (on_calibrated s) = samples s"
  "maxlen (on_calibrated s) = maxlen s"
  by (simp_all add: on_calibrated_def light_def send_def)

lemma table_3x4_update:
  "table_3x4 c \<Longrightarrow> length row = 4 \<Longrightarrow> table_3x4 (c[2 := row])"
  by (auto simp: table_3x4_def list_all_length nth_list_update)

lemma table_3x4_fresh: "table_3x4 [cal a, cal b, replicate 4 x]"
  by (simp add: table_3x4_def length_cal)

lemma read_fragment_fields:
  "read_fragment s data = Inr (s1, d1) \<Longrightarrow>
     calibration s1 = calibration s \<and> calibration_requested s1 = calibration_requested s
     \<and> samples s1 = samples s \<and> maxlen s1 = maxlen s"
  by (auto simp: read_fragment_def getitem_def Let_def split: if_splits)

lemma read_fragment_raise:
  "read_fragment s data = Inl (e, s1) \<Longrightarrow> s1 = s"
  by (auto simp: read_fragment_def getitem_def Let_def split: if_splits)

lemma store_fragment_table:
  "table_3x4 (calibration s) \<Longrightarrow> table_3x4 (calibration (outcome_state (store_fragment s d)))"
  by (auto simp: store_fragment_def outcome_state_def on_calibrated_fields table_3x4_update
      table_3x4_fresh length_cal split: option.splits)

lemma store_fragment_flag:
  "\<not> calibration_requested s \<Longrightarrow> \<not> calibration_requested (outcome_state (store_fragment s d))"
  by (auto simp: store_fragment_def outcome_state_def on_calibrated_fields split: option.splits)

lemma store_fragment_window:
  "samples (outcome_state (store_fragment s d)) = samples s \<and>
   maxlen (outcome_state (store_fragment s d)) = maxlen s"
  by (auto simp: store_fragment_def outcome_state_def on_calibrated_fields split: option.splits)

lemma get_mass_raise_or_row:
  "(\<exists>e. get_mass s d = Inl e) \<or> (\<exists>m row. get_mass s d = Inr (m, s\<lparr>csv_rows := csv_rows s @ [row]\<rparr>))"
proof (cases "get_mass s d")
  case (Inl e)
  then show ?thesis by blast
next
  case (Inr y)
  obtain m s2 where "y = (m, s2)" by (cases y)
  with Inr show ?thesis using get_mass_state [of s d m s2] by auto
qed

text \<open>
  One iteration of the loop, for a property of the table, the flag and the window: it
  holds after the iteration when it holds wherever those stay as they were, after
  \<open>store_fragment\<close> and after \<open>on_mass\<close>.
\<close>

lemma loop_body_outcomes:
  assumes same: "\<And>s'. calibration s' = calibration s \<Longrightarrow>
        calibration_requested s' = calibration_requested s \<Longrightarrow>
        samples s' = samples s \<Longrightarrow> maxlen s' = maxlen s \<Longrightarrow> P s'"
    and store: "\<And>s1 d. calibration s1 = calibration s \<Longrightarrow>
        calibration_requested s1 = calibration_requested s \<Longrightarrow>
        samples s1 = samples s \<Longrightarrow> maxlen s1 = maxlen s \<Longrightarrow>
        P (outcome_state (store_fragment s1 d))"
    and mass: "\<And>s2 m. calibration s2 = calibration s \<Longrightarrow>
        calibration_requested s2 = calibration_requested s \<Longrightarrow>
        samples s2 = samples s \<Longrightarrow> maxlen s2 = maxlen s \<Longrightarrow>
        P (on_mass N L s2 m)"
  shows "P (outcome_state (loop_body N L s data))"
proof -
  have Ps: "P s" by (rule same) simp_all
  have rd: "P (outcome_state
      (case read_fragment s data of Inl x \<Rightarrow> Inl x | Inr (s1, d1) \<Rightarrow> store_fragment s1 d1))"
  proof (cases "read_fragment s data")
    case (Inl x)
    obtain e s1 where x: "x = (e, s1)" by (cases x)
    with Inl have "s1 = s" using read_fragment_raise by blast
    with Inl x Ps show ?thesis by (simp add: outcome_state_def)
  next
    case (Inr y)
    obtain s1 d1 where y: "y = (s1, d1)" by (cases y)
    with Inr have "calibration s1 = calibration s \<and> calibration_requested s1 = calibration_requested s
     \<and> samples s1 = samples s \<and> maxlen s1 = maxlen s"
      using read_fragment_fields by blast
    then have "P (outcome_state (store_fragment s1 d1))" using store by blast
    with Inr y show ?thesis by simp
  qed
  let ?s1 = "check_button s (b2i (slice data 2 4))"
  have P1: "P ?s1" by (rule same) (simp_all add: check_button_fields)
  have ext: "P (outcome_state
      (case get_mass ?s1 (slice data 4 12) of Inl e \<Rightarrow> Inl (e, ?s1)
       | Inr (mass, s2) \<Rightarrow> Inr (on_mass N L s2 mass)))"
    using get_mass_raise_or_row [of ?s1 "slice data 4 12"]
  proof (elim disjE exE)
    fix e assume "get_mass ?s1 (slice data 4 12) = Inl e"
    with P1 show ?thesis by (simp add: outcome_state_def)
  next
    fix m row
    assume g: "get_mass ?s1 (slice data 4 12) = Inr (m, ?s1\<lparr>csv_rows := csv_rows ?s1 @ [row]\<rparr>)"
    have "P (on_mass N L (?s1\<lparr>csv_rows := csv_rows ?s1 @ [row]\<rparr>) m)"
      by (rule mass) (simp_all add: check_button_fields)
    with g show ?thesis by (simp add: outcome_state_def)
  qed
  have st: "P (s\<lparr>battery := b\<rparr>)" for b by (rule same) simp_all
  have st2: "P (on_status (s\<lparr>battery := b, light_state := l\<rparr>))" for b l
    by (rule same) (simp_all add: on_status_fields)
  show ?thesis
    unfolding loop_body_def Let_def
    using Ps rd ext st st2
    by (auto simp: outcome_state_def getitem_def split: sum.splits)
qed

lemma loop_body_flag:
  assumes "\<not> calibration_requested s"
  shows "\<not> calibration_requested (outcome_state (loop_body N L s data))"
  by (rule loop_body_outcomes) (simp_all add: assms store_fragment_flag on_mass_fields)

lemma loop_body_table:
  assumes "table_3x4 (calibration s)"
  shows "table_3x4 (calibration (outcome_state (loop_body N L s data)))"
  by (rule loop_body_outcomes) (simp_all add: assms store_fragment_table on_mass_fields)


lemma battery_after_status:
  assumes "2 \<le> length data" and "[data ! 1] = INPUT_STATUS"
  shows "battery (outcome_state (loop_body N L s data))
    = of_int (b2i (slice data 7 9)) / BATTERY_MAX"
  using assms
  by (simp add: loop_body_def outcome_state_def getitem_def on_status_def light_def
      reporting_def send_def Let_def)

lemma status_returns:
  assumes "5 \<le> length data" and "[data ! 1] = INPUT_STATUS"
  shows "loop_body N L s data =
    Inr (on_status (s\<lparr>battery := of_int (b2i (slice data 7 9)) / BATTERY_MAX,
                      light_state := (data ! 4 AND LED1_MASK = LED1_MASK)\<rparr>))"
  using assms by (simp add: loop_body_def getitem_def Let_def)

lemma status_step_fields:
  assumes "is_status data"
  shows "\<exists>s'. loop_body N L s data = Inr s' \<and> maxlen s' = maxlen s
    \<and> calibration s' = calibration s \<and> nloop s' = nloop s \<and> samples s' = samples s
    \<and> running s' = running s"
  using assms
  by (simp add: is_status_def status_returns on_status_def reporting_def light_def send_def)

lemma not_both_kinds: "is_status data \<Longrightarrow> \<not> is_extension data"
  by (auto simp: is_status_def is_extension_def INPUT_STATUS_def EXTENSION_8BYTES_def)

lemma first_fragment:
  assumes "calibration_requested s" and "5 \<le> length data" and "[data ! 1] = INPUT_READ_DATA"
    and "uint (data ! 4) div 16 + 1 = 16"
  shows "loop_body N L s data =
    Inr (s\<lparr>length_local := Some 16,
           calibration := [cal (slice (slice data 7 23) 0 8), cal (slice (slice data 7 23) 8 16),
                           replicate 4 sentinel]\<rparr>)"
  using assms
  by (simp add: loop_body_def read_fragment_def store_fragment_def getitem_def Let_def
      INPUT_READ_DATA_def INPUT_STATUS_def)

lemma second_fragment:
  assumes "calibration_requested s" and "table_3x4 (calibration s)"
    and "5 \<le> length data" and "[data ! 1] = INPUT_READ_DATA"
    and "uint (data ! 4) div 16 + 1 < 16"
  shows "loop_body N L s data =
    Inr (on_calibrated (s\<lparr>length_local := Some (uint (data ! 4) div 16 + 1),
           calibration := (calibration s)
             [2 := cal (slice (slice data 7 (7 + nat (uint (data ! 4) div 16 + 1))) 0 8)],
           calibration_requested := False\<rparr>))"
  using assms
  by (simp add: loop_body_def read_fragment_def store_fragment_def getitem_def Let_def
      INPUT_READ_DATA_def INPUT_STATUS_def table_3x4_def)

lemma stale_fragment:
  assumes "\<not> calibration_requested s" and "length_local s = Some len" and "len < 16"
    and "2 < length (calibration s)" and "2 \<le> length data" and "[data ! 1] = INPUT_READ_DATA"
  shows "loop_body N L s data =
    Inr (on_calibrated (s\<lparr>calibration := (calibration s)[2 := cal (slice data 0 8)],
                          calibration_requested := False\<rparr>))"
  using assms
  by (simp add: loop_body_def read_fragment_def store_fragment_def Let_def
      INPUT_READ_DATA_def INPUT_STATUS_def)

subsection \<open>Extension reports and the window\<close>

lemma calc_mass_returns:
  assumes "table_3x4 c" and "pos < 4" and "c ! 2 ! pos \<noteq> c ! 1 ! pos"
  shows "\<exists>m. calc_mass c raw pos = Inr m"
  using calc_mass_value [OF assms(1,2), of raw] assms(3) by simp

lemma get_mass_returns:
  assumes "divisors_nonzero (calibration s)"
  shows "\<exists>m row. get_mass s d = Inr (m, s\<lparr>csv_rows := csv_rows s @ [row]\<rparr>)"
proof -
  from assms have t: "table_3x4 (calibration s)"
    and nz: "calibration s ! 2 ! 0 \<noteq> calibration s ! 1 ! 0"
      "calibration s ! 2 ! 1 \<noteq> calibration s ! 1 ! 1"
      "calibration s ! 2 ! 2 \<noteq> calibration s ! 1 ! 2"
      "calibration s ! 2 ! 3 \<noteq> calibration s ! 1 ! 3"
    by (simp_all add: divisors_nonzero_def)
  obtain a where a: "calc_mass (calibration s) (b2i (slice d 0 2)) TOP_RIGHT = Inr a"
    using calc_mass_returns [OF t _ nz(1)] by (auto simp: TOP_RIGHT_def)
  obtain b where b: "calc_mass (calibration s) (b2i (slice d 2 4)) BOTTOM_RIGHT = Inr b"
    using calc_mass_returns [OF t _ nz(2)] by (auto simp: BOTTOM_RIGHT_def)
  obtain c where c: "calc_mass (calibration s) (b2i (slice d 4 6)) TOP_LEFT = Inr c"
    using calc_mass_returns [OF t _ nz(3)] by (auto simp: TOP_LEFT_def)
  obtain e where e: "calc_mass (calibration s) (b2i (slice d 6 8)) BOTTOM_LEFT = Inr e"
    using calc_mass_returns [OF t _ nz(4)] by (auto simp: BOTTOM_LEFT_def)
  have "get_mass s d =
      Inr (\<lparr>top_right = a, bottom_right = b, top_left = c, bottom_left = e\<rparr>,
           s\<lparr>csv_rows := csv_rows s @ [[a, b, c, e]]\<rparr>)"
    by (simp add: get_mass_def a b c e)
  then show ?thesis by blast
qed

lemma deque_append_fits: "length xs < m \<Longrightarrow> deque_append m xs x = xs @ [x]"
  by (simp add: deque_append_def Let_def)

lemma length_deque_append: "length (deque_append m xs x) \<le> m"
  by (simp add: deque_append_def Let_def)

lemma on_sample_full:
  assumes "length (samples s) = N"
  shows "nloop (on_sample N L s) = nloop s + 1"
    and "samples (on_sample N L s) = []"
    and "maxlen (on_sample N L s) = maxlen s"
    and "calibration (on_sample N L s) = calibration s"
    and "running (on_sample N L s) = (running s \<and> nloop s + 1 \<le> L)"
    and "L < nloop s + 1 \<Longrightarrow> \<not> control_open (on_sample N L s) \<and> \<not> receive_open (on_sample N L s)"
  using assms
  by (auto simp: on_sample_def status_def light_def send_def close_def sleep_def Let_def)

lemma on_sample_not_full: "length (samples s) \<noteq> N \<Longrightarrow> on_sample N L s = s"
  by (simp add: on_sample_def)

lemma on_mass_step:
  assumes "maxlen s = N" and "length (samples s) < N"
  shows "maxlen (on_mass N L s m) = N"
    and "calibration (on_mass N L s m) = calibration s"
    and "Suc (length (samples s)) = N \<Longrightarrow>
          nloop (on_mass N L s m) = nloop s + 1 \<and> samples (on_mass N L s m) = []
          \<and> running (on_mass N L s m) = (running s \<and> nloop s + 1 \<le> L)
          \<and> (L < nloop s + 1 \<longrightarrow> \<not> control_open (on_mass N L s m) \<and> \<not> receive_open (on_mass N L s m))"
    and "Suc (length (samples s)) \<noteq> N \<Longrightarrow>
          nloop (on_mass N L s m) = nloop s \<and> length (samples (on_mass N L s m)) = Suc (length (samples s))
          \<and> running (on_mass N L s m) = running s"
  using assms
  by (auto simp: on_mass_def deque_append_fits on_sample_def status_def light_def send_def close_def sleep_def Let_def)

lemma extension_step:
  assumes "is_extension data" and "divisors_nonzero (calibration s)"
  shows "\<exists>m row. loop_body N L s data =
     Inr (on_mass N L ((check_button s (b2i (slice data 2 4)))
            \<lparr>csv_rows := csv_rows (check_button s (b2i (slice data 2 4))) @ [row]\<rparr>) m)"
proof -
  let ?s1 = "check_button s (b2i (slice data 2 4))"
  have "divisors_nonzero (calibration ?s1)"
    using assms(2) by (simp add: check_button_fields)
  then obtain m row where
    "get_mass ?s1 (slice data 4 12) = Inr (m, ?s1\<lparr>csv_rows := csv_rows ?s1 @ [row]\<rparr>)"
    using get_mass_returns by blast
  then show ?thesis
    using assms(1)
    by (auto simp: loop_body_def is_extension_def Let_def EXTENSION_8BYTES_def INPUT_STATUS_def
        INPUT_READ_DATA_def)
qed

lemma extension_step_fields:
  assumes "is_extension data" and "divisors_nonzero (calibration s)"
    and "maxlen s = N" and "length (samples s) < N"
  shows "\<exists>s'. loop_body N L s data = Inr s' \<and> maxlen s' = N \<and> calibration s' = calibration s
    \<and> (if Suc (length (samples s)) = N
        then nloop s' = nloop s + 1 \<and> samples s' = []
          \<and> running s' = (running s \<and> nloop s + 1 \<le> L)
          \<and> (L < nloop s + 1 \<longrightarrow> \<not> control_open s' \<and> \<not> receive_open s')
        else nloop s' = nloop s \<and> length (samples s') = Suc (length (samples s))
          \<and> running s' = running s)"
proof -
  let ?s1 = "check_button s (b2i (slice data 2 4))"
  obtain m row where
    body: "loop_body N L s data = Inr (on_mass N L (?s1\<lparr>csv_rows := csv_rows ?s1 @ [row]\<rparr>) m)"
    using extension_step [OF assms(1,2)] by blast
  let ?s2 = "?s1\<lparr>csv_rows := csv_rows ?s1 @ [row]\<rparr>"
  have f: "maxlen ?s2 = N" "length (samples ?s2) < N" "samples ?s2 = samples s"
    "nloop ?s2 = nloop s" "running ?s2 = running s" "calibration ?s2 = calibration s"
    using assms(3,4) by (simp_all add: check_button_fields)
  show ?thesis
    using body on_mass_step [OF f(1,2), of L m] f(3-6)
    by (cases "Suc (length (samples s)) = N") auto
qed

lemma on_mass_window:
  assumes "maxlen s = N" and "length (samples s) < N"
  shows "length (samples (on_mass N L s m))
      = (if Suc (length (samples s)) = N then 0 else Suc (length (samples s)))"
    and "length (samples (on_mass N L s m)) < N"
proof -
  show "length (samples (on_mass N L s m))
      = (if Suc (length (samples s)) = N then 0 else Suc (length (samples s)))"
    using on_mass_step(3,4) [OF assms, of L m] by (cases "Suc (length (samples s)) = N") simp_all
  then show "length (samples (on_mass N L s m)) < N"
    using assms(2) by (cases "Suc (length (samples s)) = N") simp_all
qed

lemma loop_body_window:
  assumes "maxlen s = N \<and> length (samples s) < N"
  shows "maxlen (outcome_state (loop_body N L s data)) = N
    \<and> length (samples (outcome_state (loop_body N L s data))) < N"
  by (rule loop_body_outcomes)
     (use assms in \<open>simp_all add: store_fragment_window on_mass_fields on_mass_window\<close>)

lemma on_mass_capacity:
  "length (samples (on_mass N L s m)) \<le> maxlen s"
  using length_deque_append [of "maxlen s" "samples s" m]
  by (simp add: on_mass_def on_sample_def status_def light_def send_def close_def sleep_def Let_def)

subsection \<open>Runs of the loop\<close>

lemma loop_body_capacity:
  assumes "maxlen s = M \<and> length (samples s) \<le> M"
  shows "maxlen (outcome_state (loop_body N L s data)) = M
     \<and> length (samples (outcome_state (loop_body N L s data))) \<le> M"
proof (rule loop_body_outcomes)
  fix s' :: wiiboard assume "samples s' = samples s" "maxlen s' = maxlen s"
  then show "maxlen s' = M \<and> length (samples s') \<le> M" using assms by simp
next
  fix s1 :: wiiboard and d assume "samples s1 = samples s" "maxlen s1 = maxlen s"
  then show "maxlen (outcome_state (store_fragment s1 d)) = M
      \<and> length (samples (outcome_state (store_fragment s1 d))) \<le> M"
    using assms by (simp add: store_fragment_window)
next
  fix s2 :: wiiboard and m assume "maxlen s2 = maxlen s"
  then show "maxlen (on_mass N L s2 m) = M \<and> length (samples (on_mass N L s2 m)) \<le> M"
    using on_mass_capacity [of N L s2 m] assms by (simp add: on_mass_fields)
qed

lemma loop_stopped: "\<not> running s \<Longrightarrow> loop N L s pkts = Inr s"
  by (cases pkts) simp_all

lemma loop_table:
  "table_3x4 (calibration s) \<Longrightarrow> table_3x4 (calibration (outcome_state (loop N L s pkts)))"
  by (rule loop_invariant [where P = "\<lambda>x. table_3x4 (calibration x)"]) (simp_all add: loop_body_table)

lemma loop_flag:
  "\<not> calibration_requested s \<Longrightarrow> \<not> calibration_requested (outcome_state (loop N L s pkts))"
  by (rule loop_invariant [where P = "\<lambda>x. \<not> calibration_requested x"]) (simp_all add: loop_body_flag)

lemma loop_window:
  "maxlen s = N \<and> length (samples s) < N \<Longrightarrow>
     maxlen (outcome_state (loop N L s pkts)) = N
     \<and> length (samples (outcome_state (loop N L s pkts))) < N"
  by (rule loop_invariant [where P = "\<lambda>x. maxlen x = N \<and> length (samples x) < N"])
     (simp_all add: loop_body_window)

lemma loop_capacity:
  "maxlen s = M \<and> length (samples s) \<le> M \<Longrightarrow>
     maxlen (outcome_state (loop N L s pkts)) = M
     \<and> length (samples (outcome_state (loop N L s pkts))) \<le> M"
  by (rule loop_invariant [where P = "\<lambda>x. maxlen x = M \<and> length (samples x) \<le> M"])
     (simp_all add: loop_body_capacity)

lemma table_3x4_init: "table_3x4 (calibration (init n))" "table_3x4 (calibration (connect (init n)))"
  by (simp_all add: init_def connect_def light_def send_def table_3x4_def list_all_iff)

lemma below_last_epoch:
  fixes k r N L :: nat
  assumes "k \<le> L" and "r < N"
  shows "k * N + r < (L + 1) * N"
proof -
  have "k * N + r < k * N + N" using assms(2) by simp
  also have "\<dots> = (k + 1) * N" by simp
  also have "\<dots> \<le> (L + 1) * N" using assms(1) by (intro mult_le_mono1) simp
  finally show ?thesis .
qed

lemma div_mod_epoch:
  fixes k r N :: nat
  assumes "r < N"
  shows "(k * N + r) div N = k" and "(k * N + r) mod N = r"
  using assms by simp_all

lemma session_count:
  assumes "\<forall>p \<in> set pkts. is_extension p \<or> is_status p"
    and "divisors_nonzero (calibration s)"
    and "maxlen s = N" and "length (samples s) < N" and "running s" and "nloop s \<le> L"
  shows "\<exists>s'. loop N L s pkts = Inr s' \<and>
     (if nloop s * N + length (samples s) + length (filter is_extension pkts) < (L + 1) * N
      then running s'
        \<and> nloop s' = (nloop s * N + length (samples s) + length (filter is_extension pkts)) div N
        \<and> length (samples s')
            = (nloop s * N + length (samples s) + length (filter is_extension pkts)) mod N
      else \<not> running s' \<and> nloop s' = L + 1 \<and> samples s' = []
        \<and> \<not> control_open s' \<and> \<not> receive_open s')"
  using assms
proof (induction pkts arbitrary: s)
  case Nil
  have "nloop s * N + length (samples s) < (L + 1) * N"
    using below_last_epoch Nil.prems(4,6) by blast
  then show ?case
    using Nil.prems(4,5) by (simp add: div_mod_epoch)
next
  case (Cons p ps)
  let ?k = "nloop s" and ?r = "length (samples s)"
  have rest: "\<forall>q \<in> set ps. is_extension q \<or> is_status q"
    using Cons.prems(1) by simp
  show ?case
  proof (cases "is_extension p")
    case ext: True
    obtain s1 where body: "loop_body N L s p = Inr s1"
      and ml: "maxlen s1 = N" and cal1: "calibration s1 = calibration s"
      and shape: "if Suc ?r = N
          then nloop s1 = ?k + 1 \<and> samples s1 = []
            \<and> running s1 = (running s \<and> ?k + 1 \<le> L)
            \<and> (L < ?k + 1 \<longrightarrow> \<not> control_open s1 \<and> \<not> receive_open s1)
          else nloop s1 = ?k \<and> length (samples s1) = Suc ?r
            \<and> running s1 = running s"
      using extension_step_fields [OF ext Cons.prems(2,3,4), of L] by blast
    have unfold: "loop N L s (p # ps) = loop N L s1 ps"
      using body Cons.prems(5) by simp
    have dn: "divisors_nonzero (calibration s1)" using cal1 Cons.prems(2) by simp
    have count: "length (filter is_extension (p # ps)) = Suc (length (filter is_extension ps))"
      using ext by simp
    show ?thesis
    proof (cases "Suc ?r = N")
      case full: True
      with shape have s1: "nloop s1 = ?k + 1" "samples s1 = []"
        "running s1 = (?k + 1 \<le> L)"
        "L < ?k + 1 \<longrightarrow> \<not> control_open s1 \<and> \<not> receive_open s1"
        using Cons.prems(5) by simp_all
      have total: "?k * N + ?r + length (filter is_extension (p # ps))
          = (?k + 1) * N + length (filter is_extension ps)"
        using full count by simp
      show ?thesis
      proof (cases "?k + 1 \<le> L")
        case True
        have len1: "length (samples s1) < N" using s1(2) full by simp
        have run1: "running s1" using s1(3) True by simp
        have k1: "nloop s1 \<le> L" using s1(1) True by simp
        have eq: "nloop s1 * N + length (samples s1) + length (filter is_extension ps)
            = ?k * N + ?r + length (filter is_extension (p # ps))"
          using s1(1,2) total by simp
        show ?thesis
          using Cons.IH [OF rest dn ml len1 run1 k1] unfolding eq unfold .
      next
        case False
        then have stop: "\<not> running s1" using s1(3) by simp
        have kL: "?k = L" using False Cons.prems(6) by simp
        have "\<not> ?k * N + ?r + length (filter is_extension (p # ps)) < (L + 1) * N"
          unfolding total using kL by simp
        moreover have "loop N L s (p # ps) = Inr s1"
          using unfold loop_stopped [OF stop] by simp
        moreover have "nloop s1 = L + 1" using s1(1) kL by simp
        moreover have "\<not> control_open s1 \<and> \<not> receive_open s1" using s1(4) kL by simp
        ultimately show ?thesis using stop s1(2) by simp
      qed
    next
      case notfull: False
      with shape have s1: "nloop s1 = ?k" "length (samples s1) = Suc ?r" "running s1"
        using Cons.prems(5) by simp_all
      have len1: "length (samples s1) < N" using s1(2) notfull Cons.prems(4) by simp
      have k1: "nloop s1 \<le> L" using s1(1) Cons.prems(6) by simp
      have eq: "nloop s1 * N + length (samples s1) + length (filter is_extension ps)
          = ?k * N + ?r + length (filter is_extension (p # ps))"
        using s1(1,2) count by simp
      show ?thesis
        using Cons.IH [OF rest dn ml len1 s1(3) k1] unfolding eq unfold .
    qed
  next
    case noext: False
    then have st: "is_status p" using Cons.prems(1) by simp
    obtain s1 where body: "loop_body N L s p = Inr s1"
      and f: "maxlen s1 = maxlen s" "calibration s1 = calibration s" "nloop s1 = nloop s"
        "samples s1 = samples s" "running s1 = running s"
      using status_step_fields [OF st, of N L s] by blast
    have unfold: "loop N L s (p # ps) = loop N L s1 ps"
      using body Cons.prems(5) by simp
    have eq: "nloop s1 * N + length (samples s1) + length (filter is_extension ps)
        = ?k * N + ?r + length (filter is_extension (p # ps))"
      using f noext by simp
    have pre: "divisors_nonzero (calibration s1)" "maxlen s1 = N" "length (samples s1) < N"
      "running s1" "nloop s1 \<le> L"
      using f Cons.prems by simp_all
    show ?thesis
      using Cons.IH [OF rest pre] unfolding eq unfold .
  qed
qed

lemma on_sample_terminates:
  assumes "length (samples t) = N" and "L < nloop t + 1"
  shows "on_sample N L t =
      close ((status (t\<lparr>events := events t @ [SessionCompleted], samples := []\<rparr>))
               \<lparr>nloop := nloop t + 1\<rparr>)"
    and "\<not> running (on_sample N L t)" and "\<not> control_open (on_sample N L t)"
    and "\<not> receive_open (on_sample N L t)"
    and "control_sent (on_sample N L t) = control_sent t @ [[0x52, 0x15, 0x00]]"
  using assms
  by (simp_all add: on_sample_def status_def send_def close_def Let_def COMMAND_REQUEST_STATUS_def)

lemma on_sample_continues:
  assumes "length (samples t) = N" and "nloop t + 1 \<le> L"
  shows "running (on_sample N L t) = running t"
    and "control_open (on_sample N L t) = control_open t"
    and "receive_open (on_sample N L t) = receive_open t"
    and "control_sent (on_sample N L t) = control_sent t @ [[0x52, 0x15, 0x00], [0x52, 0x11, 0x00]]"
    and "slept (on_sample N L t) = slept t + T_SLEEP"
  using assms
  by (simp_all add: on_sample_def status_def light_def send_def sleep_def Let_def
      COMMAND_REQUEST_STATUS_def COMMAND_LIGHT_def)

subsection \<open>The worked examples\<close>

lemma calibrated_run:
  "loop N L (connect (init n)) [example_fragment_1, example_fragment_2] =
     Inr ((connect (init n))\<lparr>calibration := example_table, calibration_requested := False,
            length_local := Some 8, events := [BoardCalibrated],
            control_sent := control_sent (connect (init n)) @ [[0x52, 0x11, 0x10]]\<rparr>)"
  by (simp add: example_fragment_1_def example_fragment_2_def example_table_def loop_body_def
      connect_def init_def send_def light_def
      INPUT_STATUS_def INPUT_READ_DATA_def read_fragment_def store_fragment_def getitem_def
      slice_def cal_def b2i_def on_calibrated_def sentinel_def Let_def
      COMMAND_READ_REGISTER_def COMMAND_REGISTER_def COMMAND_LIGHT_def)

lemma calibrated_example_eq:
  "calibrated_example n = (connect (init n))\<lparr>calibration := example_table, calibration_requested := False,
            length_local := Some 8, events := [BoardCalibrated],
            control_sent := control_sent (connect (init n)) @ [[0x52, 0x11, 0x10]]\<rparr>"
  unfolding calibrated_example_def calibrated_run by (simp add: outcome_state_def)

lemma calibrated_example_fields:
  "calibration (calibrated_example n) = example_table"
  "\<not> calibration_requested (calibrated_example n)"
  "maxlen (calibrated_example n) = n"
  "samples (calibrated_example n) = []"
  "nloop (calibrated_example n) = 0"
  "running (calibrated_example n)"
  by (simp_all add: calibrated_example_eq connect_def init_def light_def send_def)

lemma calibrated_example_more:
  "length_local (calibrated_example n) = Some 8"
  "events (calibrated_example n) = [BoardCalibrated]"
  by (simp_all add: calibrated_example_eq)

lemma cal_of_header: "cal (slice example_fragment_2 0 8) = [41249, 0, 28672, 13313]"
  by (simp add: cal_def slice_def b2i_def example_fragment_2_def)

lemma example_extension_kind: "is_extension example_extension"
  by (simp add: is_extension_def example_extension_def EXTENSION_8BYTES_def)

lemma example_status_kind: "is_status example_status"
  by (simp add: is_status_def example_status_def INPUT_STATUS_def)

lemma divisors_nonzero_example: "divisors_nonzero example_table"
  by (simp add: divisors_nonzero_def table_3x4_example) (simp add: example_table_def)

subsection \<open>Weight computation\<close>

text \<open>
  C1, as the code has it. On a table of three rows of four values and a corner
  \<open>pos < 4\<close>, \<open>calc_mass\<close> follows the three-branch rule: a reading below
  \<open>cal[0]\<close> gives 0.0; a reading from \<open>cal[0]\<close> up to but not including \<open>cal[1]\<close>
  gives \<open>17 * (raw - cal[0]) / (cal[1] - cal[0])\<close>; any other reading gives
  \<open>17 + 17 * (raw - cal[1]) / (cal[2] - cal[1])\<close> when \<open>cal[2]\<close> differs from
  \<open>cal[1]\<close>, and raises ZeroDivisionError when they are equal. In particular every
  reading below \<open>cal[0]\<close> gives 0.0.
\<close>

theorem calc_mass_piecewise:
  assumes "table_3x4 c" and "pos < 4"
  shows "calc_mass c raw pos =
      (if of_int raw < c ! 0 ! pos then Inr 0
       else if of_int raw < c ! 1 ! pos
         then Inr (17 * (of_int raw - c ! 0 ! pos) / (c ! 1 ! pos - c ! 0 ! pos))
       else if c ! 2 ! pos = c ! 1 ! pos then Inl ZeroDivisionError
       else Inr (17 + 17 * (of_int raw - c ! 1 ! pos) / (c ! 2 ! pos - c ! 1 ! pos)))
    \<and> (of_int raw < c ! 0 ! pos \<longrightarrow> calc_mass c raw pos = Inr 0)"
  using calc_mass_value [OF assms, of raw] by simp

theorem calc_mass_piecewise_witness:
  "table_3x4 example_table \<and> TOP_RIGHT < 4 \<and>
   calc_mass example_table 150 TOP_RIGHT = Inr (17 / 2) \<and>
   calc_mass example_table 250 TOP_RIGHT = Inr (51 / 2) \<and>
   calc_mass example_table 99 TOP_RIGHT = Inr 0"
proof -
  have t: "table_3x4 example_table" by (rule table_3x4_example)
  have p: "TOP_RIGHT < 4" by (simp add: TOP_RIGHT_def)
  show ?thesis
    using t p calc_mass_piecewise [OF t p, of 150] calc_mass_piecewise [OF t p, of 250]
      calc_mass_piecewise [OF t p, of 99]
    by (simp add: example_table_def TOP_RIGHT_def)
qed

text \<open>
  C1 as it is stated fails where the third branch divides by zero: on the table the
  object is built with, all \<open>1e4\<close>, the reading 10000 is in the third branch and
  \<open>calc_mass\<close> raises, so it returns no value at all.
\<close>

theorem calc_mass_uncalibrated_raises:
  "calc_mass (calibration (init N_SAMPLES)) 10000 TOP_RIGHT = Inl ZeroDivisionError \<and>
   (\<forall>m. calc_mass (calibration (init N_SAMPLES)) 10000 TOP_RIGHT \<noteq> Inr m)"
  by (simp add: calc_mass_def cal_at_def getitem_def init_def sentinel_def TOP_RIGHT_def
      upper_branch_def truediv_def)

text \<open>
  C9. With \<open>cal[0] < cal[1] < cal[2]\<close> at a corner, the expression of the middle branch
  and the expression of the upper branch both give 17 at \<open>raw = cal[1]\<close>, and 17 is
  what \<open>calc_mass\<close> returns for a reading equal to \<open>cal[1]\<close>; below it, from
  \<open>cal[0]\<close> on, \<open>calc_mass\<close> is the middle branch.
\<close>

theorem calc_mass_continuous_at_cal1:
  assumes "table_3x4 c" and "pos < 4"
    and "c ! 0 ! pos < c ! 1 ! pos" and "c ! 1 ! pos < c ! 2 ! pos"
  shows "middle_branch (c ! 1 ! pos) (c ! 0 ! pos) (c ! 1 ! pos) = Inr 17
    \<and> upper_branch (c ! 1 ! pos) (c ! 1 ! pos) (c ! 2 ! pos) = Inr 17
    \<and> (of_int raw = c ! 1 ! pos \<longrightarrow> calc_mass c raw pos = Inr 17)
    \<and> (c ! 0 ! pos \<le> of_int raw \<and> of_int raw < c ! 1 ! pos \<longrightarrow>
         calc_mass c raw pos = middle_branch (of_int raw) (c ! 0 ! pos) (c ! 1 ! pos))"
  using assms
  by (simp add: calc_mass_def cal_at_3x4 middle_branch_def upper_branch_def truediv_def)

theorem calc_mass_continuous_at_cal1_witness:
  "table_3x4 example_table \<and> BOTTOM_LEFT < 4
    \<and> example_table ! 0 ! BOTTOM_LEFT < example_table ! 1 ! BOTTOM_LEFT
    \<and> example_table ! 1 ! BOTTOM_LEFT < example_table ! 2 ! BOTTOM_LEFT
    \<and> middle_branch 200 100 200 = Inr 17 \<and> upper_branch 200 200 300 = Inr 17
    \<and> calc_mass example_table 200 BOTTOM_LEFT = Inr 17"
proof -
  have t: "table_3x4 example_table" by (rule table_3x4_example)
  have p: "BOTTOM_LEFT < 4" by (simp add: BOTTOM_LEFT_def)
  have a: "example_table ! 0 ! BOTTOM_LEFT < example_table ! 1 ! BOTTOM_LEFT"
    by (simp add: example_table_def BOTTOM_LEFT_def)
  have b: "example_table ! 1 ! BOTTOM_LEFT < example_table ! 2 ! BOTTOM_LEFT"
    by (simp add: example_table_def BOTTOM_LEFT_def)
  show ?thesis
    using t p a b calc_mass_continuous_at_cal1 [OF t p a b, of 200]
    by (simp add: example_table_def BOTTOM_LEFT_def)
qed

subsection \<open>Button edges\<close>

text \<open>
  C8. From the not-pressed state the masks down, down, down, up, up, where up is any
  value other than the down pattern, add exactly the two events pressed, released, in
  that order; and a call with the mask of the call before it changes nothing, so it
  emits no event.
\<close>

theorem check_button_edges:
  assumes "\<not> button_down s" and "u1 \<noteq> BUTTON_DOWN_MASK" and "u2 \<noteq> BUTTON_DOWN_MASK"
  shows "events (foldl check_button s
            [BUTTON_DOWN_MASK, BUTTON_DOWN_MASK, BUTTON_DOWN_MASK, u1, u2])
          = events s @ [ButtonPressed, ButtonReleased]
    \<and> check_button (check_button s' m) m = check_button s' m"
  using assms by (simp add: check_button_def on_pressed_def on_released_def)

theorem check_button_edges_witness:
  "\<not> button_down (init N_SAMPLES) \<and> (0 :: int) \<noteq> BUTTON_DOWN_MASK
    \<and> events (foldl check_button (init N_SAMPLES) [0x08, 0x08, 0x08, 0, 0])
        = [ButtonPressed, ButtonReleased]"
proof -
  have a: "\<not> button_down (init N_SAMPLES)" by (simp add: init_def)
  have b: "(0 :: int) \<noteq> BUTTON_DOWN_MASK" by (simp add: BUTTON_DOWN_MASK_def)
  have e: "events (init N_SAMPLES) = []" by (simp add: init_def)
  show ?thesis
    using a b e check_button_edges [OF a b b, where s' = "init N_SAMPLES" and m = 0]
    by (simp add: BUTTON_DOWN_MASK_def)
qed

text \<open>
  C10. After one call of \<open>check_button\<close> with mask \<open>m\<close> the flag \<open>button_down\<close> is
  true exactly when \<open>m\<close> is \<open>BUTTON_DOWN_MASK\<close>, whatever the flag was before.
\<close>

theorem check_button_tracks_mask:
  "button_down (check_button s m) = (m = BUTTON_DOWN_MASK)"
  by (simp add: check_button_def on_pressed_def on_released_def)

subsection \<open>The handshake\<close>

text \<open>
  C3, at every object: \<open>connect\<close> gives the control socket exactly three byte strings,
  the register read of the calibration area, the register write that arms the
  extension, and the light command with the light off. The status request
  \<open>52 15 00\<close> is not among them: line 114 names \<open>self.status\<close> and does not call it.
  The flag \<open>calibration_requested\<close> is set.
\<close>

theorem connect_sends:
  "control_sent (connect s) = control_sent s @
      [[0x52, 0x17, 0x04, 0xA4, 0x00, 0x24, 0x00, 0x18],
       [0x52, 0x16, 0x04, 0xA4, 0x00, 0x40, 0x00],
       [0x52, 0x11, 0x00]]
    \<and> control_sent (status s) = control_sent s @ [[0x52, 0x15, 0x00]]
    \<and> [0x52, 0x15, 0x00] \<notin> set (control_sent (connect (init N_SAMPLES)))
    \<and> calibration_requested (connect s)"
  by (simp add: connect_def send_def light_def status_def init_def COMMAND_READ_REGISTER_def
      COMMAND_REGISTER_def COMMAND_LIGHT_def COMMAND_REQUEST_STATUS_def)

subsection \<open>Status reports\<close>

text \<open>
  C7, as the code has it. For every status packet the handler sets \<open>battery\<close> to the
  big-endian value of \<open>data[7:9]\<close> divided by 200.0, also when it then raises on a
  packet too short to hold byte 4. In a packet of nine bytes or more that value is the
  16-bit one of bytes 7 and 8. The result is never negative and never above
  65535 / 200; it is at most 1 exactly when the field is at most 200. A field of 100
  gives 0.5.
\<close>

theorem status_battery:
  assumes "2 \<le> length data" and "[data ! 1] = INPUT_STATUS"
  shows "battery (outcome_state (loop_body N L s data))
      = of_int (b2i (slice data 7 9)) / 200
    \<and> (9 \<le> length data \<longrightarrow> b2i (slice data 7 9) = 256 * uint (data ! 7) + uint (data ! 8))
    \<and> 0 \<le> battery (outcome_state (loop_body N L s data))
    \<and> battery (outcome_state (loop_body N L s data)) \<le> 65535 / 200
    \<and> (battery (outcome_state (loop_body N L s data)) \<le> 1 \<longleftrightarrow> b2i (slice data 7 9) \<le> 200)
    \<and> (b2i (slice data 7 9) = 100 \<longrightarrow> battery (outcome_state (loop_body N L s data)) = 1 / 2)"
proof -
  have val: "battery (outcome_state (loop_body N L s data)) = of_int (b2i (slice data 7 9)) / 200"
    using battery_after_status [OF assms] by (simp add: BATTERY_MAX_def)
  have "length (slice data 7 9) \<le> 2"
    using length_slice_le [of data 7 9] by simp
  then have bounds: "0 \<le> b2i (slice data 7 9) \<and> b2i (slice data 7 9) \<le> 65535"
    by (rule b2i_short_bounds)
  have two: "9 \<le> length data \<longrightarrow> b2i (slice data 7 9) = 256 * uint (data ! 7) + uint (data ! 8)"
    using slice_two [of 7 data] by (simp add: b2i_two)
  show ?thesis
    unfolding val using bounds two by simp
qed

theorem status_battery_witness:
  "2 \<le> length [0xa1, 0x20, 0, 0, 0x10, 0, 0, 0, 100 :: byte]
    \<and> [[0xa1, 0x20, 0, 0, 0x10, 0, 0, 0, 100 :: byte] ! 1] = INPUT_STATUS
    \<and> battery (outcome_state (loop_body N_SAMPLES N_LOOP (connect (init N_SAMPLES))
          [0xa1, 0x20, 0, 0, 0x10, 0, 0, 0, 100])) = 1 / 2"
proof -
  have a: "2 \<le> length [0xa1, 0x20, 0, 0, 0x10, 0, 0, 0, 100 :: byte]" by simp
  have b: "[[0xa1, 0x20, 0, 0, 0x10, 0, 0, 0, 100 :: byte] ! 1] = INPUT_STATUS"
    by (simp add: INPUT_STATUS_def)
  have c: "b2i (slice [0xa1, 0x20, 0, 0, 0x10, 0, 0, 0, 100 :: byte] 7 9) = 100"
    by (simp add: slice_def b2i_def)
  show ?thesis
    using a b c status_battery [OF a b, of N_SAMPLES N_LOOP "connect (init N_SAMPLES)"]
    by simp
qed

text \<open>
  C7 as it is stated fails on a status packet whose field is above 200: with bytes 7
  and 8 \<open>01 00\<close> the field is 256 and the battery level is 1.28.
\<close>

theorem status_battery_above_one:
  "\<exists>s'. loop_body N_SAMPLES N_LOOP (connect (init N_SAMPLES)) example_status = Inr s'
      \<and> battery s' = 32 / 25 \<and> 1 < battery s'"
  by (simp add: status_returns example_status_def INPUT_STATUS_def on_status_def light_def
      reporting_def send_def slice_def b2i_def BATTERY_MAX_def)

subsection \<open>Calibration\<close>

text \<open>
  C4. The table has three rows of four values when the object is built and after
  \<open>connect\<close>, and it keeps that shape through any run of the loop, on any packets and
  whether the run ends by a raise or not. A flag that is clear stays clear through any
  run. With the flag set, a calibration packet of at least five bytes whose length
  nibble gives 16 stores four values in each of rows 0 and 1 and the sentinel row in
  row 2, and leaves the flag set; one whose nibble gives less than 16 stores four
  values in row 2 and clears the flag, which then stays clear through any later run.
\<close>

theorem calibration_table_3x4:
  "table_3x4 (calibration (init n)) \<and> table_3x4 (calibration (connect (init n)))
   \<and> (table_3x4 (calibration s) \<longrightarrow>
        table_3x4 (calibration (outcome_state (loop N L s pkts))))
   \<and> (\<not> calibration_requested t \<longrightarrow>
        \<not> calibration_requested (outcome_state (loop N L t pkts)))
   \<and> (calibration_requested u \<and> 5 \<le> length data \<and> [data ! 1] = INPUT_READ_DATA
        \<and> uint (data ! 4) div 16 + 1 = 16 \<longrightarrow>
        (\<exists>u'. loop_body N L u data = Inr u' \<and> calibration_requested u'
           \<and> calibration u'
               = [cal (slice (slice data 7 23) 0 8), cal (slice (slice data 7 23) 8 16),
                  replicate 4 sentinel]
           \<and> length (calibration u' ! 0) = 4 \<and> length (calibration u' ! 1) = 4
           \<and> table_3x4 (calibration u')))
   \<and> (calibration_requested v \<and> table_3x4 (calibration v) \<and> 5 \<le> length data'
        \<and> [data' ! 1] = INPUT_READ_DATA \<and> uint (data' ! 4) div 16 + 1 < 16 \<longrightarrow>
        (\<exists>v'. loop_body N L v data' = Inr v' \<and> \<not> calibration_requested v'
           \<and> calibration v' = (calibration v)
               [2 := cal (slice (slice data' 7 (7 + nat (uint (data' ! 4) div 16 + 1))) 0 8)]
           \<and> length (calibration v' ! 2) = 4 \<and> table_3x4 (calibration v')
           \<and> \<not> calibration_requested (outcome_state (loop N L v' pkts'))))"
proof (intro conjI impI)
  show "table_3x4 (calibration (init n))" "table_3x4 (calibration (connect (init n)))"
    by (rule table_3x4_init)+
next
  assume "table_3x4 (calibration s)"
  then show "table_3x4 (calibration (outcome_state (loop N L s pkts)))" by (rule loop_table)
next
  assume "\<not> calibration_requested t"
  then show "\<not> calibration_requested (outcome_state (loop N L t pkts))" by (rule loop_flag)
next
  assume a: "calibration_requested u \<and> 5 \<le> length data \<and> [data ! 1] = INPUT_READ_DATA
        \<and> uint (data ! 4) div 16 + 1 = 16"
  then have "loop_body N L u data =
    Inr (u\<lparr>length_local := Some 16,
           calibration := [cal (slice (slice data 7 23) 0 8), cal (slice (slice data 7 23) 8 16),
                           replicate 4 sentinel]\<rparr>)"
    using first_fragment by blast
  then show "\<exists>u'. loop_body N L u data = Inr u' \<and> calibration_requested u'
           \<and> calibration u'
               = [cal (slice (slice data 7 23) 0 8), cal (slice (slice data 7 23) 8 16),
                  replicate 4 sentinel]
           \<and> length (calibration u' ! 0) = 4 \<and> length (calibration u' ! 1) = 4
           \<and> table_3x4 (calibration u')"
    using a by (simp add: length_cal table_3x4_fresh)
next
  assume a: "calibration_requested v \<and> table_3x4 (calibration v) \<and> 5 \<le> length data'
        \<and> [data' ! 1] = INPUT_READ_DATA \<and> uint (data' ! 4) div 16 + 1 < 16"
  let ?row = "cal (slice (slice data' 7 (7 + nat (uint (data' ! 4) div 16 + 1))) 0 8)"
  let ?v' = "on_calibrated (v\<lparr>length_local := Some (uint (data' ! 4) div 16 + 1),
           calibration := (calibration v)[2 := ?row], calibration_requested := False\<rparr>)"
  have body: "loop_body N L v data' = Inr ?v'"
    using a second_fragment by blast
  have flag: "\<not> calibration_requested ?v'" by (simp add: on_calibrated_fields)
  have tab: "calibration ?v' = (calibration v)[2 := ?row]" by (simp add: on_calibrated_fields)
  have t3: "table_3x4 ((calibration v)[2 := ?row])"
    using a by (simp add: table_3x4_update length_cal)
  have row: "length ((calibration v)[2 := ?row] ! 2) = 4"
    using a by (simp add: table_3x4_def length_cal)
  have later: "\<not> calibration_requested (outcome_state (loop N L ?v' pkts'))"
    using flag by (rule loop_flag)
  show "\<exists>v'. loop_body N L v data' = Inr v' \<and> \<not> calibration_requested v'
           \<and> calibration v' = (calibration v)[2 := ?row]
           \<and> length (calibration v' ! 2) = 4 \<and> table_3x4 (calibration v')
           \<and> \<not> calibration_requested (outcome_state (loop N L v' pkts'))"
    using body flag tab t3 row later by (intro exI [of _ ?v']) simp
qed

theorem calibration_table_3x4_witness:
  "table_3x4 (calibration (connect (init N_SAMPLES)))
   \<and> calibration_requested (connect (init N_SAMPLES))
   \<and> 5 \<le> length example_fragment_1 \<and> [example_fragment_1 ! 1] = INPUT_READ_DATA
   \<and> uint (example_fragment_1 ! 4) div 16 + 1 = 16
   \<and> (\<exists>u'. loop_body N_SAMPLES N_LOOP (connect (init N_SAMPLES)) example_fragment_1 = Inr u'
         \<and> calibration_requested u' \<and> table_3x4 (calibration u')
         \<and> 5 \<le> length example_fragment_2 \<and> [example_fragment_2 ! 1] = INPUT_READ_DATA
         \<and> uint (example_fragment_2 ! 4) div 16 + 1 < 16
         \<and> (\<exists>v'. loop_body N_SAMPLES N_LOOP u' example_fragment_2 = Inr v'
               \<and> \<not> calibration_requested v' \<and> table_3x4 (calibration v')
               \<and> \<not> calibration_requested
                     (outcome_state (loop N_SAMPLES N_LOOP v' [example_fragment_2, example_fragment_1]))
               \<and> table_3x4 (calibration
                     (outcome_state (loop N_SAMPLES N_LOOP v' [example_fragment_2, example_fragment_1])))))"
proof -
  let ?c = "connect (init N_SAMPLES)"
  have c: "calibration_requested ?c" by (simp add: connect_def light_def send_def)
  have f1: "5 \<le> length example_fragment_1" "[example_fragment_1 ! 1] = INPUT_READ_DATA"
    "uint (example_fragment_1 ! 4) div 16 + 1 = 16"
    by (simp_all add: example_fragment_1_def INPUT_READ_DATA_def)
  have f2: "5 \<le> length example_fragment_2" "[example_fragment_2 ! 1] = INPUT_READ_DATA"
    "uint (example_fragment_2 ! 4) div 16 + 1 < 16"
    by (simp_all add: example_fragment_2_def INPUT_READ_DATA_def)
  note inst = calibration_table_3x4 [where n = N_SAMPLES and N = N_SAMPLES and L = N_LOOP
      and data = example_fragment_1 and data' = example_fragment_2
      and pkts = "[example_fragment_2, example_fragment_1]"
      and pkts' = "[example_fragment_2, example_fragment_1]"]
  have t0: "table_3x4 (calibration ?c)"
    using inst [where s = ?c and t = ?c and u = ?c and v = ?c] by simp
  obtain u' where u: "loop_body N_SAMPLES N_LOOP ?c example_fragment_1 = Inr u'"
    "calibration_requested u'" "table_3x4 (calibration u')"
    using inst [where s = ?c and t = ?c and u = ?c and v = ?c] c f1 by auto
  obtain v' where v: "loop_body N_SAMPLES N_LOOP u' example_fragment_2 = Inr v'"
    "\<not> calibration_requested v'" "table_3x4 (calibration v')"
    using inst [where s = u' and t = u' and u = u' and v = u'] u(2,3) f2 by auto
  have later: "\<not> calibration_requested
      (outcome_state (loop N_SAMPLES N_LOOP v' [example_fragment_2, example_fragment_1]))"
    "table_3x4 (calibration
      (outcome_state (loop N_SAMPLES N_LOOP v' [example_fragment_2, example_fragment_1])))"
    using inst [where s = v' and t = v' and u = v' and v = v'] v(2,3) by auto
  show ?thesis
    using t0 c f1 f2 u v later by blast
qed

text \<open>
  C2, at a concrete run: after \<open>connect\<close> and the two fragments the flag is clear and
  the table is filled. A further packet with tag 0x21, here the second fragment again,
  is not ignored: lines 219 to 224 stand outside the test of the flag, so they run on
  the value \<open>length\<close> kept from the fragment before and on the whole packet, header
  included; row 2 of the table is overwritten, the calibrated callback runs a second
  time and the light command is sent again.
\<close>

theorem late_calibration_packet_is_processed:
  "\<not> calibration_requested (calibrated_example N_SAMPLES)
   \<and> calibration (calibrated_example N_SAMPLES)
       = [[100, 100, 100, 100], [200, 200, 200, 200], [300, 300, 300, 300]]
   \<and> events (calibrated_example N_SAMPLES) = [BoardCalibrated]
   \<and> (\<exists>s'. loop_body N_SAMPLES N_LOOP (calibrated_example N_SAMPLES) example_fragment_2 = Inr s'
         \<and> calibration s'
             = [[100, 100, 100, 100], [200, 200, 200, 200], [41249, 0, 28672, 13313]]
         \<and> events s' = [BoardCalibrated, BoardCalibrated]
         \<and> control_sent s' = control_sent (calibrated_example N_SAMPLES) @ [[0x52, 0x11, 0x10]])"
proof -
  let ?s = "calibrated_example N_SAMPLES"
  let ?s' = "on_calibrated (?s\<lparr>calibration := (calibration ?s)[2 := cal (slice example_fragment_2 0 8)],
                          calibration_requested := False\<rparr>)"
  have pk: "2 \<le> length example_fragment_2" "[example_fragment_2 ! 1] = INPUT_READ_DATA"
    by (simp_all add: example_fragment_2_def INPUT_READ_DATA_def)
  have rows: "2 < length (calibration ?s)"
    by (simp add: calibrated_example_fields example_table_def)
  have flag: "\<not> calibration_requested ?s" by (simp add: calibrated_example_fields)
  have len: "length_local ?s = Some 8" by (simp add: calibrated_example_more)
  have lt: "(8 :: int) < 16" by simp
  have body: "loop_body N_SAMPLES N_LOOP ?s example_fragment_2 = Inr ?s'"
    by (rule stale_fragment [OF flag len lt rows pk])
  have tab: "calibration ?s' = [[100, 100, 100, 100], [200, 200, 200, 200], [41249, 0, 28672, 13313]]"
    by (simp add: on_calibrated_fields calibrated_example_fields cal_of_header example_table_def)
  have ev: "events ?s' = [BoardCalibrated, BoardCalibrated]"
    by (simp add: on_calibrated_def light_def send_def calibrated_example_more)
  have snt: "control_sent ?s' = control_sent ?s @ [[0x52, 0x11, 0x10]]"
    by (simp add: on_calibrated_def light_def send_def COMMAND_LIGHT_def)
  have before: "\<not> calibration_requested ?s"
    "calibration ?s = [[100, 100, 100, 100], [200, 200, 200, 200], [300, 300, 300, 300]]"
    "events ?s = [BoardCalibrated]"
    by (simp_all add: calibrated_example_fields calibrated_example_more example_table_def)
  have "\<exists>s'. loop_body N_SAMPLES N_LOOP ?s example_fragment_2 = Inr s'
         \<and> calibration s'
             = [[100, 100, 100, 100], [200, 200, 200, 200], [41249, 0, 28672, 13313]]
         \<and> events s' = [BoardCalibrated, BoardCalibrated]
         \<and> control_sent s' = control_sent ?s @ [[0x52, 0x11, 0x10]]"
    using body tab ev snt by (intro exI [of _ ?s'] conjI)
  with before show ?thesis by (intro conjI)
qed

subsection \<open>The sampling window\<close>

text \<open>
  C5. With the deque bounded by \<open>N\<close>, the number \<open>on_sample\<close> compares against, and
  fewer than \<open>N\<close> samples in it: the push appends the sample and drops none; after
  \<open>on_mass\<close> the window holds one sample more, or none when that made \<open>N\<close>; so it
  holds fewer than \<open>N\<close> again. Through any run of the loop from such an object the
  window holds fewer than \<open>N\<close> samples, and whatever number \<open>on_sample\<close> compares
  against, a window within its bound \<open>M\<close> stays within it. The object after
  \<open>connect\<close> is such an object when \<open>0 < N\<close>.
\<close>

theorem sampling_window_bounded:
  "(maxlen s = N \<and> length (samples s) < N \<longrightarrow>
      deque_append (maxlen s) (samples s) m = samples s @ [m]
      \<and> length (samples (on_mass N L s m))
          = (if Suc (length (samples s)) = N then 0 else Suc (length (samples s)))
      \<and> length (samples (on_mass N L s m)) < N)
   \<and> (maxlen t = N \<and> length (samples t) < N \<longrightarrow>
        length (samples (outcome_state (loop N L t pkts))) < N)
   \<and> (maxlen u = M \<and> length (samples u) \<le> M \<longrightarrow>
        length (samples (outcome_state (loop N' L' u pkts'))) \<le> M)
   \<and> (0 < n \<longrightarrow> maxlen (connect (init n)) = n \<and> length (samples (connect (init n))) < n)"
proof (intro conjI impI)
  assume a: "maxlen s = N \<and> length (samples s) < N"
  then show "deque_append (maxlen s) (samples s) m = samples s @ [m]"
    by (simp add: deque_append_fits)
  from a show "length (samples (on_mass N L s m))
          = (if Suc (length (samples s)) = N then 0 else Suc (length (samples s)))"
    using on_mass_window(1) by blast
  from a show "length (samples (on_mass N L s m)) < N"
    using on_mass_window(2) by blast
next
  assume "maxlen t = N \<and> length (samples t) < N"
  then show "length (samples (outcome_state (loop N L t pkts))) < N"
    using loop_window by blast
next
  assume "maxlen u = M \<and> length (samples u) \<le> M"
  then show "length (samples (outcome_state (loop N' L' u pkts'))) \<le> M"
    using loop_capacity by blast
next
  assume "0 < n"
  then show "maxlen (connect (init n)) = n" "length (samples (connect (init n))) < n"
    by (simp_all add: connect_def init_def light_def send_def)
qed

theorem sampling_window_bounded_witness:
  "maxlen (calibrated_example 2) = 2 \<and> length (samples (calibrated_example 2)) < 2
   \<and> length (samples (outcome_state (loop 2 1 (calibrated_example 2) [example_extension]))) = 1
   \<and> length (samples (outcome_state
        (loop 2 1 (calibrated_example 2) [example_extension, example_extension]))) = 0
   \<and> length (samples (outcome_state
        (loop 2 1 (calibrated_example 2)
           [example_extension, example_extension, example_extension]))) < 2"
proof -
  let ?s = "calibrated_example 2"
  have pre: "maxlen ?s = 2 \<and> length (samples ?s) < 2"
    by (simp add: calibrated_example_fields)
  note inst = sampling_window_bounded [where N = 2 and L = 1 and s = ?s and t = ?s and u = ?s
      and M = 2 and N' = 2 and L' = 1 and n = 2
      and pkts = "[example_extension, example_extension, example_extension]"
      and pkts' = "[example_extension, example_extension, example_extension]"]
  have three: "length (samples (outcome_state
        (loop 2 1 ?s [example_extension, example_extension, example_extension]))) < 2"
    using inst pre by blast
  obtain s1 where s1: "loop_body 2 1 ?s example_extension = Inr s1"
    "maxlen s1 = 2" "calibration s1 = example_table" "length (samples s1) = 1" "running s1"
    "nloop s1 = 0"
    using extension_step_fields [OF example_extension_kind, of ?s 2 1]
    by (auto simp: calibrated_example_fields divisors_nonzero_example)
  obtain s2 where s2: "loop_body 2 1 s1 example_extension = Inr s2"
    "samples s2 = []"
    using extension_step_fields [OF example_extension_kind, of s1 2 1] s1
    by (auto simp: divisors_nonzero_example)
  show ?thesis
    using pre three s1 s2 by (simp add: calibrated_example_fields outcome_state_def)
qed

subsection \<open>Epochs\<close>

text \<open>
  C6. From a running object with an empty window bounded by \<open>N > 0\<close>, the counter at
  0 and a table on which the upper branch cannot divide by zero, a run on extension
  reports, with status reports among them, returns; it is still running while fewer
  than \<open>(L + 1) * N\<close> extension reports have arrived, the counter then being the
  number of full windows, and from the report that completes window \<open>L + 1\<close> on it
  has stopped with the counter at \<open>L + 1\<close> and both sockets closed. At a full window
  \<open>on_sample\<close> empties it and adds one to the counter; when the counter then exceeds
  \<open>L\<close> it clears \<open>running\<close> and closes both sockets, having sent the status
  request; otherwise it sends the status request and the light-off command, sleeps
  \<open>T_SLEEP\<close> seconds and leaves \<open>running\<close> and the sockets as they were. At a window
  that is not full it does nothing.
\<close>

theorem session_terminates:
  assumes "\<forall>p \<in> set pkts. is_extension p \<or> is_status p"
    and "divisors_nonzero (calibration s)"
    and "maxlen s = N" and "0 < N" and "samples s = []" and "nloop s = 0" and "running s"
  shows "(\<exists>s'. loop N L s pkts = Inr s' \<and>
       (if length (filter is_extension pkts) < (L + 1) * N
        then running s' \<and> nloop s' = length (filter is_extension pkts) div N
          \<and> length (samples s') = length (filter is_extension pkts) mod N
        else \<not> running s' \<and> nloop s' = L + 1
          \<and> \<not> control_open s' \<and> \<not> receive_open s'))
    \<and> (length (samples t) = N \<longrightarrow>
          nloop (on_sample N L t) = nloop t + 1 \<and> samples (on_sample N L t) = []
          \<and> (L < nloop t + 1 \<longrightarrow>
                \<not> running (on_sample N L t) \<and> \<not> control_open (on_sample N L t)
                \<and> \<not> receive_open (on_sample N L t)
                \<and> control_sent (on_sample N L t) = control_sent t @ [[0x52, 0x15, 0x00]])
          \<and> (nloop t + 1 \<le> L \<longrightarrow>
                running (on_sample N L t) = running t
                \<and> control_open (on_sample N L t) = control_open t
                \<and> receive_open (on_sample N L t) = receive_open t
                \<and> control_sent (on_sample N L t)
                    = control_sent t @ [[0x52, 0x15, 0x00], [0x52, 0x11, 0x00]]
                \<and> slept (on_sample N L t) = slept t + T_SLEEP))
    \<and> (length (samples t) \<noteq> N \<longrightarrow> on_sample N L t = t)"
proof (intro conjI impI)
  have pre: "length (samples s) < N" "nloop s \<le> L"
    using assms(4,5,6) by simp_all
  show "\<exists>s'. loop N L s pkts = Inr s' \<and>
       (if length (filter is_extension pkts) < (L + 1) * N
        then running s' \<and> nloop s' = length (filter is_extension pkts) div N
          \<and> length (samples s') = length (filter is_extension pkts) mod N
        else \<not> running s' \<and> nloop s' = L + 1
          \<and> \<not> control_open s' \<and> \<not> receive_open s')"
    using session_count [OF assms(1,2,3) pre(1) assms(7) pre(2)] assms(5,6)
    by (auto split: if_splits)
next
  assume "length (samples t) = N"
  then show "nloop (on_sample N L t) = nloop t + 1" "samples (on_sample N L t) = []"
    by (simp_all add: on_sample_full)
next
  assume "length (samples t) = N" "L < nloop t + 1"
  then show "\<not> running (on_sample N L t)" "\<not> control_open (on_sample N L t)"
    "\<not> receive_open (on_sample N L t)"
    "control_sent (on_sample N L t) = control_sent t @ [[0x52, 0x15, 0x00]]"
    using on_sample_terminates by blast+
next
  assume "length (samples t) = N" "nloop t + 1 \<le> L"
  then show "running (on_sample N L t) = running t"
    "control_open (on_sample N L t) = control_open t"
    "receive_open (on_sample N L t) = receive_open t"
    "control_sent (on_sample N L t) = control_sent t @ [[0x52, 0x15, 0x00], [0x52, 0x11, 0x00]]"
    "slept (on_sample N L t) = slept t + T_SLEEP"
    using on_sample_continues by blast+
next
  assume "length (samples t) \<noteq> N"
  then show "on_sample N L t = t" by (rule on_sample_not_full)
qed

theorem session_terminates_witness:
  "list_all (\<lambda>p. is_extension p \<or> is_status p)
      [example_extension, example_extension, example_status, example_extension,
       example_extension, example_extension]
   \<and> divisors_nonzero (calibration (calibrated_example 2))
   \<and> maxlen (calibrated_example 2) = 2 \<and> samples (calibrated_example 2) = []
   \<and> nloop (calibrated_example 2) = 0 \<and> running (calibrated_example 2)
   \<and> (\<exists>s'. loop 2 1 (calibrated_example 2)
          [example_extension, example_extension, example_status, example_extension] = Inr s'
        \<and> running s' \<and> nloop s' = 1 \<and> length (samples s') = 1)
   \<and> (\<exists>s'. loop 2 1 (calibrated_example 2)
          [example_extension, example_extension, example_status, example_extension,
           example_extension, example_extension] = Inr s'
        \<and> \<not> running s' \<and> nloop s' = 2 \<and> \<not> control_open s' \<and> \<not> receive_open s')"
proof -
  let ?s = "calibrated_example 2"
  let ?a = "[example_extension, example_extension, example_status, example_extension]"
  let ?b = "[example_extension, example_extension, example_status, example_extension,
           example_extension, example_extension]"
  have ka: "\<forall>p \<in> set ?a. is_extension p \<or> is_status p"
    by (simp add: example_extension_kind example_status_kind)
  have kb: "\<forall>p \<in> set ?b. is_extension p \<or> is_status p"
    by (simp add: example_extension_kind example_status_kind)
  have kl: "list_all (\<lambda>p. is_extension p \<or> is_status p) ?b"
    by (simp add: example_extension_kind example_status_kind)
  have d: "divisors_nonzero (calibration ?s)"
    by (simp add: calibrated_example_fields divisors_nonzero_example)
  have f: "maxlen ?s = 2" "(0::nat) < 2" "samples ?s = []" "nloop ?s = 0" "running ?s"
    by (simp_all add: calibrated_example_fields)
  have ns: "\<not> is_extension example_status"
    using example_status_kind by (rule not_both_kinds)
  have ca: "length (filter is_extension ?a) = 3" and cb: "length (filter is_extension ?b) = 5"
    by (simp_all add: example_extension_kind ns)
  have "\<exists>s'. loop 2 1 ?s ?a = Inr s' \<and>
       (if length (filter is_extension ?a) < (1 + 1) * 2
        then running s' \<and> nloop s' = length (filter is_extension ?a) div 2
          \<and> length (samples s') = length (filter is_extension ?a) mod 2
        else \<not> running s' \<and> nloop s' = 1 + 1
          \<and> \<not> control_open s' \<and> \<not> receive_open s')"
    using session_terminates [OF ka d f, of 1 ?s] by (rule conjunct1)
  then obtain sa where sa: "loop 2 1 ?s ?a = Inr sa \<and>
       (if length (filter is_extension ?a) < (1 + 1) * 2
        then running sa \<and> nloop sa = length (filter is_extension ?a) div 2
          \<and> length (samples sa) = length (filter is_extension ?a) mod 2
        else \<not> running sa \<and> nloop sa = 1 + 1
          \<and> \<not> control_open sa \<and> \<not> receive_open sa)" ..
  from sa have sa1: "loop 2 1 ?s ?a = Inr sa" by (rule conjunct1)
  from sa have "if length (filter is_extension ?a) < (1 + 1) * 2
        then running sa \<and> nloop sa = length (filter is_extension ?a) div 2
          \<and> length (samples sa) = length (filter is_extension ?a) mod 2
        else \<not> running sa \<and> nloop sa = 1 + 1
          \<and> \<not> control_open sa \<and> \<not> receive_open sa" by (rule conjunct2)
  then have sa2: "running sa \<and> nloop sa = 1 \<and> length (samples sa) = 1"
    unfolding ca by simp
  have a: "\<exists>s'. loop 2 1 ?s ?a = Inr s' \<and> running s' \<and> nloop s' = 1
      \<and> length (samples s') = 1"
    using sa1 sa2 by (intro exI [of _ sa] conjI) simp_all
  have "\<exists>s'. loop 2 1 ?s ?b = Inr s' \<and>
       (if length (filter is_extension ?b) < (1 + 1) * 2
        then running s' \<and> nloop s' = length (filter is_extension ?b) div 2
          \<and> length (samples s') = length (filter is_extension ?b) mod 2
        else \<not> running s' \<and> nloop s' = 1 + 1
          \<and> \<not> control_open s' \<and> \<not> receive_open s')"
    using session_terminates [OF kb d f, of 1 ?s] by (rule conjunct1)
  then obtain sb where sb: "loop 2 1 ?s ?b = Inr sb \<and>
       (if length (filter is_extension ?b) < (1 + 1) * 2
        then running sb \<and> nloop sb = length (filter is_extension ?b) div 2
          \<and> length (samples sb) = length (filter is_extension ?b) mod 2
        else \<not> running sb \<and> nloop sb = 1 + 1
          \<and> \<not> control_open sb \<and> \<not> receive_open sb)" ..
  from sb have sb1: "loop 2 1 ?s ?b = Inr sb" by (rule conjunct1)
  from sb have "if length (filter is_extension ?b) < (1 + 1) * 2
        then running sb \<and> nloop sb = length (filter is_extension ?b) div 2
          \<and> length (samples sb) = length (filter is_extension ?b) mod 2
        else \<not> running sb \<and> nloop sb = 1 + 1
          \<and> \<not> control_open sb \<and> \<not> receive_open sb" by (rule conjunct2)
  then have sb2: "\<not> running sb \<and> nloop sb = 2 \<and> \<not> control_open sb \<and> \<not> receive_open sb"
    unfolding cb by simp
  have b: "\<exists>s'. loop 2 1 ?s ?b = Inr s' \<and> \<not> running s' \<and> nloop s' = 2
      \<and> \<not> control_open s' \<and> \<not> receive_open s'"
    using sb1 sb2 by (intro exI [of _ sb] conjI) simp_all
  show ?thesis
    using kl d f(1,3,4,5) a b by (intro conjI)
qed

end
